theory Spec2Isabelle
  imports Main "HOL-Library.AList"
begin

section \<open>Python values, errors and strings\<close>

text \<open>
  The session layer of \<^verbatim>\<open>ezrecords/abstractdb.py\<close> (class \<^verbatim>\<open>Database\<close>) is
  embedded here. Python values that travel as bound arguments, dictionary values and
  diagnostics are a small datatype; an exception is a value of type \<open>error\<close> and every
  operation returns its result together with the session it leaves behind, so that the
  state changes made before a raise stay visible.
\<close>

datatype pyval = PNone | PBool bool | PInt int | PStr string

datatype error =
    RuntimeError string
  | NameError string
  | TypeError string
  | AttributeError string
  | IndexError
  | BackendError string

definition sq :: char where
  "sq = CHR 0x27"

definition dq :: char where
  "dq = CHR 0x22"

text \<open>Python's \<^verbatim>\<open>sep.join(xs)\<close>.\<close>

fun join :: "string \<Rightarrow> string list \<Rightarrow> string" where
  "join sep [] = []"
| "join sep [x] = x"
| "join sep (x # y # ys) = x @ sep @ join sep (y # ys)"

text \<open>Python's \<^verbatim>\<open>str(x)\<close> on the values of \<open>pyval\<close>.\<close>

definition digit_char :: "nat \<Rightarrow> char" where
  "digit_char n = ''0123456789'' ! n"

function string_of_nat :: "nat \<Rightarrow> string" where
  "string_of_nat n =
     (if n < 10 then [digit_char n] else string_of_nat (n div 10) @ [digit_char (n mod 10)])"
  by pat_completeness auto
termination
  by (relation "measure id") auto

definition py_str :: "pyval \<Rightarrow> string" where
  "py_str v =
     (case v of
        PNone \<Rightarrow> ''None''
      | PBool b \<Rightarrow> (if b then ''True'' else ''False'')
      | PInt i \<Rightarrow> (if i < 0 then CHR ''-'' # string_of_nat (nat (- i)) else string_of_nat (nat i))
      | PStr s \<Rightarrow> s)"

subsection \<open>The text helpers of \<^verbatim>\<open>ezrecords.util\<close>\<close>

text \<open>
  Modelled from the spec: \<^verbatim>\<open>str_replace\<close> and \<^verbatim>\<open>preg_replace\<close> are imported from
  \<^verbatim>\<open>ezrecords.util\<close>, which is not among the sources. \<^verbatim>\<open>str_replace(search, replace,
  subject)\<close> replaces every occurrence of \<open>search\<close> in \<open>subject\<close>, scanning from the left
  and resuming after each replaced occurrence (the spec: a marker "is unquoted to the bare
  marker", "is rewritten to the bare marker", "over the whole string"). All calls pass a
  non-empty literal as \<open>search\<close>; with an empty one the subject is returned as it is.
\<close>

function str_replace :: "string \<Rightarrow> string \<Rightarrow> string \<Rightarrow> string" where
  "str_replace search rep [] = []"
| "str_replace search rep (c # cs) =
     (if search \<noteq> [] \<and> take (length search) (c # cs) = search
      then rep @ str_replace search rep (drop (length search) (c # cs))
      else c # str_replace search rep cs)"
  by pat_completeness auto
termination
  by (relation "measure (\<lambda>(search, rep, subject). length subject)") auto

text \<open>
  Modelled from the spec: the one use of \<^verbatim>\<open>preg_replace\<close> in the session layer,
  \<^verbatim>\<open>preg_replace(r'(%)\1+', r'\1', sql)\<close>. The pattern matches a percent sign followed by
  one or more further percent signs, greedily, and the match is replaced by its first
  group, one percent sign (the spec: "any run of two or more consecutive marker
  characters is collapsed to a single marker character").
\<close>

function preg_replace_runs :: "string \<Rightarrow> string" where
  "preg_replace_runs [] = []"
| "preg_replace_runs (c # cs) =
     (if c = CHR ''%'' \<and> take 1 cs = ''%''
      then CHR ''%'' # preg_replace_runs (dropWhile (\<lambda>x. x = CHR ''%'') cs)
      else c # preg_replace_runs cs)"
  by pat_completeness auto
termination
  by (relation "measure length") (auto simp: less_Suc_eq_le length_dropWhile_le)

section \<open>The session and its backend\<close>

text \<open>
  A result row as the driver hands it over: its column names with their values, in
  column order. \<^verbatim>\<open>Record\<close> and \<^verbatim>\<open>RecordCollection\<close> come from
  \<^verbatim>\<open>ezrecords.records\<close>, which is not among the sources.

  Modelled from the spec: a Row Record is an "ordered list of column names" with a
  "parallel list of values"; a Record Collection is the finite sequence of the Row
  Records of one query, with "positional indexing" and "first row or null" retrieval.
  Its lazy producer and cache are not observable by the operations below, so the
  collection is the list of its records.
\<close>

type_synonym row = "(string \<times> pyval) list"

datatype py_record = Record (rec_keys: "string list") (rec_values: "pyval list")

datatype qres = QNone | QRow py_record | QRows "py_record list"

definition first :: "py_record list \<Rightarrow> qres" where
  "first results = (case results of [] \<Rightarrow> QNone | r # _ \<Rightarrow> QRow r)"

text \<open>
  What a cursor is asked to run: \<^verbatim>\<open>cursor.execute(sql, args)\<close> or
  \<^verbatim>\<open>cursor.callproc(sql, args)\<close>. The statement is optional because Python lets
  \<^verbatim>\<open>None\<close> through as far as the driver.
\<close>

datatype call = Execute "string option" "pyval list" | Callproc "string option" "pyval list"

text \<open>
  The database driver is outside the repository. It is a parameter of the model: a
  record of the responses of the driver's operations, each a function of the backend's
  own state \<open>'b\<close> (the server and the driver's connection object), which it may change
  and in which it may fail.
  \<^item> \<open>open_fn\<close>: opening a connection (what the abstract hook \<^verbatim>\<open>_connect\<close> asks for);
  \<^item> \<open>begin_fn\<close>, \<open>commit_fn\<close>, \<open>rollback_fn\<close>: the connection's transaction calls;
  \<^item> \<open>mogrify_fn\<close>: the cursor's \<^verbatim>\<open>mogrify\<close>, absent (\<open>None\<close>) on drivers whose
    cursors have no such method (\<^verbatim>\<open>hasattr(cursor, 'mogrify')\<close>);
  \<^item> \<open>run_fn\<close>: \<^verbatim>\<open>execute\<close> and \<^verbatim>\<open>callproc\<close>; on success the cursor's
    \<^verbatim>\<open>rowcount\<close> and \<^verbatim>\<open>lastrowid\<close> afterwards;
  \<^item> \<open>fetchall_fn\<close>: \<^verbatim>\<open>cursor.fetchall()\<close> after that call: it may raise, return
    \<^verbatim>\<open>None\<close> or return rows;
  \<^item> \<open>elapsed\<close>, \<open>caller\<close>: the formatted duration of the debugging timer and the
    description of the calling frame (\<^verbatim>\<open>inspect.stack()[1]\<close>); the clock and the call
    stack are not modelled, their readings are given.
\<close>

record 'b driver =
  open_fn :: "'b \<Rightarrow> error option \<times> 'b"
  begin_fn :: "'b \<Rightarrow> error option \<times> 'b"
  commit_fn :: "'b \<Rightarrow> error option \<times> 'b"
  rollback_fn :: "'b \<Rightarrow> error option \<times> 'b"
  mogrify_fn :: "(string option \<Rightarrow> pyval list \<Rightarrow> error + string) option"
  run_fn :: "call \<Rightarrow> 'b \<Rightarrow> (error + int \<times> pyval) \<times> 'b"
  fetchall_fn :: "call \<Rightarrow> 'b \<Rightarrow> (error + row list option) \<times> 'b"
  elapsed :: string
  caller :: string

text \<open>
  The attributes of \<^verbatim>\<open>Database\<close> that the operations below read or write
  (\<^verbatim>\<open>__init__\<close>, lines 41-113). \<open>connection\<close> is \<^verbatim>\<open>self._connection\<close>: \<open>None\<close>
  while the session is bound to no connection, otherwise the cursors created on the
  connection so far, each \<open>True\<close> while it is open. \<open>last_query\<close> is a Python value
  because it starts as \<^verbatim>\<open>None\<close>.
\<close>

record 'b session =
  backend :: 'b
  connection :: "bool list option"
  in_transaction :: bool
  save_queries :: bool
  saved_queries :: "(pyval \<times> string \<times> string) list"
  last_insert_id :: pyval
  last_query :: pyval
  last_result :: qres
  affected_rows :: int
  queries_executed :: int
  placeholder :: string

text \<open>
  Modelled from the spec: \<^verbatim>\<open>connect\<close> (lines 120-126) only calls the abstract hook
  \<^verbatim>\<open>_connect\<close>, whose implementations are not among the sources. The spec: the engine
  "ensures a live connection (reconnecting if the session was never connected)". So a
  bound connection is kept, and an unbound session asks the driver for one.
\<close>

definition connect :: "'b driver \<Rightarrow> 'b session \<Rightarrow> error option \<times> 'b session" where
  "connect d s =
     (case connection s of
        Some c \<Rightarrow> (None, s)
      | None \<Rightarrow>
          (case open_fn d (backend s) of
             (Some e, b) \<Rightarrow> (Some e, s\<lparr>backend := b\<rparr>)
           | (None, b) \<Rightarrow> (None, s\<lparr>backend := b, connection := Some []\<rparr>)))"

text \<open>
  \<^verbatim>\<open>self._connection.cursor()\<close>: a new open cursor, named by its position among the
  connection's cursors; on \<^verbatim>\<open>None\<close> the attribute lookup fails. \<^verbatim>\<open>cursor.close()\<close>
  marks it closed.
\<close>

definition cursor :: "'b session \<Rightarrow> (error + nat) \<times> 'b session" where
  "cursor s =
     (case connection s of
        None \<Rightarrow> (Inl (AttributeError ''cursor''), s)
      | Some c \<Rightarrow> (Inr (length c), s\<lparr>connection := Some (c @ [True])\<rparr>))"

definition close_cursor :: "nat \<Rightarrow> 'b session \<Rightarrow> 'b session" where
  "close_cursor cur s = s\<lparr>connection := map_option (\<lambda>c. c[cur := False]) (connection s)\<rparr>"

definition cursor_open :: "nat \<Rightarrow> 'b session \<Rightarrow> bool" where
  "cursor_open cur s =
     (case connection s of None \<Rightarrow> False | Some c \<Rightarrow> cur < length c \<and> c ! cur)"

section \<open>The placeholder normalizer: \<^verbatim>\<open>prepare\<close>\<close>

text \<open>
  Lines 189-193 of \<^verbatim>\<open>prepare\<close>: the five rewriting steps, in the order of the source,
  with \<open>ph\<close> for \<^verbatim>\<open>self._placeholder\<close>.
\<close>

definition rewrite :: "string \<Rightarrow> string \<Rightarrow> string" where
  "rewrite ph sql =
     (let sql1 = str_replace ([sq] @ ''%s'' @ [sq]) ph sql;
          sql2 = str_replace ([dq] @ ''%s'' @ [dq]) ph sql1;
          sql3 = str_replace ''%f'' ph sql2;
          sql4 = str_replace ''%d'' ph sql3
      in preg_replace_runs sql4)"

text \<open>
  \<^verbatim>\<open>prepare(sql, *args)\<close>, lines 183-204. The cursor it creates is never closed. The
  \<^verbatim>\<open>map\<close> over the arguments returns each of them as it is.
\<close>

definition prepare ::
  "'b driver \<Rightarrow> string option \<Rightarrow> pyval list \<Rightarrow> 'b session \<Rightarrow> (error + string option) \<times> 'b session"
where
  "prepare d sql args s =
     (case sql of
        None \<Rightarrow> (Inr None, s)
      | Some text \<Rightarrow>
          (case connect d s of
             (Some e, s1) \<Rightarrow> (Inl e, s1)
           | (None, s1) \<Rightarrow>
               (case cursor s1 of
                  (Inl e, s2) \<Rightarrow> (Inl e, s2)
                | (Inr cur, s2) \<Rightarrow>
                    (let sql' = rewrite (placeholder s2) text in
                     if length args = 0 then (Inr (Some sql'), s2)
                     else
                       (case mogrify_fn d of
                          None \<Rightarrow> (Inr (Some sql'), s2)
                        | Some m \<Rightarrow>
                            (case m (Some sql') args of
                               Inl e \<Rightarrow> (Inl e, s2)
                             | Inr clean_sql \<Rightarrow> (Inr (Some clean_sql), s2)))))))"

section \<open>The execution engine: \<^verbatim>\<open>query\<close>\<close>

text \<open>
  Lines 239-256: the statement is run on the cursor. On the stored-procedure path the
  procedure is called first and the last query is the name followed by the arguments
  joined with commas; on the other path the text goes through \<^verbatim>\<open>prepare\<close>, the last
  query is recorded before the statement runs, and the saved-query entry and the counter
  of executed queries follow it. The timer's two timestamps are not modelled.
\<close>

definition query_execute ::
  "'b driver \<Rightarrow> string option \<Rightarrow> pyval list \<Rightarrow> bool \<Rightarrow> 'b session
     \<Rightarrow> (error + call \<times> int \<times> pyval) \<times> 'b session"
where
  "query_execute d sql args proc s =
     (if proc then
        (case run_fn d (Callproc sql args) (backend s) of
           (Inl e, b) \<Rightarrow> (Inl e, s\<lparr>backend := b\<rparr>)
         | (Inr meta, b) \<Rightarrow>
             (case sql of
                None \<Rightarrow> (Inl (TypeError ''NoneType + str''), s\<lparr>backend := b\<rparr>)
              | Some name \<Rightarrow>
                  (Inr (Callproc sql args, meta),
                   s\<lparr>backend := b, last_query := PStr (name @ join '', '' (map py_str args))\<rparr>)))
      else
        (case prepare d sql [] s of
           (Inl e, s1) \<Rightarrow> (Inl e, s1)
         | (Inr sql', s1) \<Rightarrow>
             (case (case mogrify_fn d of
                      Some m \<Rightarrow> (case m sql' args of Inl e \<Rightarrow> Inl e | Inr t \<Rightarrow> Inr (PStr t))
                    | None \<Rightarrow> Inr (case sql' of None \<Rightarrow> PNone | Some t \<Rightarrow> PStr t)) of
                Inl e \<Rightarrow> (Inl e, s1)
              | Inr lq \<Rightarrow>
                  (case run_fn d (Execute sql' args) (backend s1) of
                     (Inl e, b) \<Rightarrow> (Inl e, s1\<lparr>backend := b, last_query := lq\<rparr>)
                   | (Inr meta, b) \<Rightarrow>
                       (let s2 = s1\<lparr>backend := b, last_query := lq\<rparr>;
                            s3 = (if save_queries s2
                                  then s2\<lparr>saved_queries :=
                                         saved_queries s2 @ [(lq, elapsed d, caller d)]\<rparr>
                                  else s2)
                        in (Inr (Execute sql' args, meta),
                            s3\<lparr>queries_executed := queries_executed s3 + 1\<rparr>))))))"

text \<open>
  Lines 264-286: the rows are fetched, the cursor is closed and the rows become
  records. The handler of the \<^verbatim>\<open>try\<close> names \<^verbatim>\<open>exception\<close>, which is bound nowhere
  (the built-in class is \<^verbatim>\<open>Exception\<close>): when \<^verbatim>\<open>fetchall\<close> raises, evaluating the
  handler's expression raises \<^verbatim>\<open>NameError\<close>, which leaves \<^verbatim>\<open>query\<close> before
  \<^verbatim>\<open>cursor.close()\<close>.
\<close>

definition query_fetch ::
  "'b driver \<Rightarrow> nat \<Rightarrow> call \<Rightarrow> bool \<Rightarrow> 'b session \<Rightarrow> (error + qres) \<times> 'b session"
where
  "query_fetch d cur c one s =
     (case fetchall_fn d c (backend s) of
        (Inl e, b) \<Rightarrow> (Inl (NameError ''exception''), s\<lparr>backend := b\<rparr>)
      | (Inr rv, b) \<Rightarrow>
          (let s1 = close_cursor cur (s\<lparr>backend := b\<rparr>) in
           case rv of
             None \<Rightarrow> (Inr QNone, s1)
           | Some rows \<Rightarrow>
               (let results = map (\<lambda>row. Record (map fst row) (map snd row)) rows;
                    r = (if one then first results else QRows results)
                in (Inr r, s1\<lparr>last_result := r\<rparr>))))"

text \<open>
  \<^verbatim>\<open>query(sql, *args, **kwargs)\<close>, lines 233-286, with the keyword arguments
  \<^verbatim>\<open>proc\<close> and \<^verbatim>\<open>one\<close> as flags. Logging writes to the logger only and is left out.
\<close>

definition query ::
  "'b driver \<Rightarrow> string option \<Rightarrow> pyval list \<Rightarrow> bool \<Rightarrow> bool \<Rightarrow> 'b session
     \<Rightarrow> (error + qres) \<times> 'b session"
where
  "query d sql args proc one s =
     (case connect d s of
        (Some e, s1) \<Rightarrow> (Inl e, s1)
      | (None, s1) \<Rightarrow>
          (case cursor s1 of
             (Inl e, s2) \<Rightarrow> (Inl e, s2)
           | (Inr cur, s2) \<Rightarrow>
               (case query_execute d sql args proc s2 of
                  (Inl e, s3) \<Rightarrow> (Inl e, s3)
                | (Inr (c, rowcount, lastrowid), s3) \<Rightarrow>
                    query_fetch d cur c one
                      (s3\<lparr>affected_rows := rowcount, last_insert_id := lastrowid\<rparr>))))"

section \<open>Shaped retrieval: \<^verbatim>\<open>get_row\<close> and \<^verbatim>\<open>get_results\<close>\<close>

text \<open>
  The four output shapes. \<^verbatim>\<open>row.as_dict()\<close>, \<^verbatim>\<open>row.dataset\<close> and
  \<^verbatim>\<open>Munch.fromDict\<close> belong to code that is not among the sources.

  Modelled from the spec: the shapes are the "raw record", the "plain mapping" (the
  record's "conversion to a plain name-to-value mapping"), the "list-of-values" and the
  "attribute-style object view" of a row; the last two are kept as the row they are
  views of.
\<close>

datatype shaped = SRecord py_record | SDict row | SDataset py_record | SObject py_record

definition as_dict :: "py_record \<Rightarrow> row" where
  "as_dict r = zip (rec_keys r) (rec_values r)"

text \<open>
  \<^verbatim>\<open>rows[row_offset]\<close> on what \<^verbatim>\<open>query(query)\<close> returned: \<^verbatim>\<open>None\<close> cannot be
  indexed, and a collection raises \<^verbatim>\<open>IndexError\<close> (the exception \<^verbatim>\<open>query_one\<close>
  catches) when it has no row at the offset. The offset is "indexed from 0" and is a
  natural number here. \<^verbatim>\<open>query\<close> is called without \<^verbatim>\<open>one=True\<close>, so a single
  record is never what it returns (lemma \<open>query_fetch_all_not_row\<close> below); that case
  is given the error of the first one.
\<close>

definition index_rows :: "qres \<Rightarrow> nat \<Rightarrow> error + py_record" where
  "index_rows rows row_offset =
     (case rows of
        QNone \<Rightarrow> Inl (TypeError ''NoneType is not subscriptable'')
      | QRows rs \<Rightarrow> (if row_offset < length rs then Inr (rs ! row_offset) else Inl IndexError)
      | QRow r \<Rightarrow> Inl (TypeError ''NoneType is not subscriptable''))"

text \<open>\<^verbatim>\<open>get_row(query, output_type, row_offset)\<close>, lines 372-384.\<close>

definition get_row ::
  "'b driver \<Rightarrow> string \<Rightarrow> string \<Rightarrow> nat \<Rightarrow> 'b session \<Rightarrow> (error + shaped option) \<times> 'b session"
where
  "get_row d query_text output_type row_offset s =
     (case query d (Some query_text) [] False False s of
        (Inl e, s1) \<Rightarrow> (Inl e, s1)
      | (Inr rows, s1) \<Rightarrow>
          (case index_rows rows row_offset of
             Inl e \<Rightarrow> (Inl e, s1)
           | Inr row \<Rightarrow>
               (if output_type = ''record'' then (Inr (Some (SRecord row)), s1)
                else if output_type = ''dict'' then (Inr (Some (SDict (as_dict row))), s1)
                else if output_type = ''dataset'' then (Inr (Some (SDataset row)), s1)
                else if output_type = ''object'' then (Inr (Some (SObject row)), s1)
                else (Inr None, s1))))"

text \<open>
  The loop of \<^verbatim>\<open>get_results\<close>, lines 425-433, with \<open>output_rows\<close> as accumulator;
  \<open>shape_row\<close> is its body.
\<close>

definition shape_row :: "string \<Rightarrow> py_record \<Rightarrow> shaped list \<Rightarrow> shaped list" where
  "shape_row output_type row output_rows =
     (if output_type = ''record'' then output_rows @ [SRecord row]
      else if output_type = ''dict'' then output_rows @ [SDict (as_dict row)]
      else if output_type = ''dataset'' then output_rows @ [SDataset row]
      else if output_type = ''object'' then output_rows @ [SObject row]
      else output_rows)"

fun shape_rows :: "string \<Rightarrow> py_record list \<Rightarrow> shaped list \<Rightarrow> shaped list" where
  "shape_rows output_type [] output_rows = output_rows"
| "shape_rows output_type (row # rows) output_rows =
     shape_rows output_type rows (shape_row output_type row output_rows)"

text \<open>
  \<^verbatim>\<open>get_results(query, output_type)\<close>, lines 422-435. Iterating over \<^verbatim>\<open>None\<close>
  raises \<^verbatim>\<open>TypeError\<close>; the single-record case is as in \<open>index_rows\<close>.
\<close>

definition get_results ::
  "'b driver \<Rightarrow> string \<Rightarrow> string \<Rightarrow> 'b session \<Rightarrow> (error + shaped list) \<times> 'b session"
where
  "get_results d query_text output_type s =
     (case query d (Some query_text) [] False False s of
        (Inl e, s1) \<Rightarrow> (Inl e, s1)
      | (Inr rows, s1) \<Rightarrow>
          (case rows of
             QNone \<Rightarrow> (Inl (TypeError ''NoneType is not iterable''), s1)
           | QRows rs \<Rightarrow> (Inr (shape_rows output_type rs []), s1)
           | QRow r \<Rightarrow> (Inl (TypeError ''NoneType is not iterable''), s1)))"

section \<open>The SQL builder helpers\<close>

text \<open>
  A Python dictionary with string keys, in insertion order (the order in which Python
  3.7 and later iterate over a dictionary, its keys and its values).
  \<^verbatim>\<open>kwargs.update(data)\<close> stores each pair of \<open>data\<close> in turn: a key already present
  keeps its place and takes the new value, a new key goes to the end.
\<close>

type_synonym dict = "(string \<times> pyval) list"

definition dict_update :: "dict \<Rightarrow> dict \<Rightarrow> dict" where
  "dict_update kwargs data = fold (\<lambda>(k, v) acc. AList.update k v acc) data kwargs"

text \<open>
  \<^verbatim>\<open>insert(table, data=None, **kwargs)\<close>, lines 455-468. \<open>insert_statement\<close> is the
  statement and the argument list handed to \<^verbatim>\<open>query\<close> (lines 455-464).
\<close>

definition insert_statement ::
  "string \<Rightarrow> string \<Rightarrow> dict option \<Rightarrow> dict \<Rightarrow> string \<times> pyval list"
where
  "insert_statement ph table data kwargs =
     (let kw = (case data of None \<Rightarrow> kwargs | Some m \<Rightarrow> dict_update kwargs m);
          vals = map snd kw;
          sql = ''INSERT INTO '' @ table @ '' ('' @ join '', '' (map fst kw) @ '') VALUES (''
                  @ join '', '' (replicate (length vals) ph) @ '')''
      in (sql, vals))"

definition insert ::
  "'b driver \<Rightarrow> string \<Rightarrow> dict option \<Rightarrow> dict \<Rightarrow> 'b session \<Rightarrow> (error + int) \<times> 'b session"
where
  "insert d table data kwargs s =
     (case insert_statement (placeholder s) table data kwargs of
        (sql, vals) \<Rightarrow>
          (case query d (Some sql) vals False False s of
             (Inl e, s1) \<Rightarrow> (Inl e, s1)
           | (Inr r, s1) \<Rightarrow> (Inr (affected_rows s1), s1)))"

text \<open>
  \<^verbatim>\<open>bulk_insert(table, columns, values)\<close>, lines 486-500; the loop that extends
  \<open>all_values\<close> by each row is a left fold.
\<close>

definition bulk_insert_statement ::
  "string \<Rightarrow> string \<Rightarrow> string list \<Rightarrow> pyval list list \<Rightarrow> string \<times> pyval list"
where
  "bulk_insert_statement ph table columns vals =
     (let single_values = ''('' @ join '', '' (replicate (length columns) ph) @ '')'';
          sql = ''INSERT INTO '' @ table @ '' ('' @ join '', '' columns @ '') VALUES ''
                  @ join '', '' (replicate (length vals) single_values);
          all_values = foldl (\<lambda>all_values v. all_values @ v) [] vals
      in (sql, all_values))"

definition bulk_insert ::
  "'b driver \<Rightarrow> string \<Rightarrow> string list \<Rightarrow> pyval list list \<Rightarrow> 'b session
     \<Rightarrow> (error + int) \<times> 'b session"
where
  "bulk_insert d table columns vals s =
     (case bulk_insert_statement (placeholder s) table columns vals of
        (sql, all_values) \<Rightarrow>
          (case query d (Some sql) all_values False False s of
             (Inl e, s1) \<Rightarrow> (Inl e, s1)
           | (Inr r, s1) \<Rightarrow> (Inr (affected_rows s1), s1)))"

text \<open>
  The loop over the conditions, the same in \<^verbatim>\<open>delete\<close> (lines 525-531) and in
  \<^verbatim>\<open>update\<close> (lines 575-581), with the lists \<open>conditions\<close> and \<open>values\<close> as
  accumulators.
\<close>

fun where_loop :: "string \<Rightarrow> dict \<Rightarrow> string list \<times> pyval list \<Rightarrow> string list \<times> pyval list" where
  "where_loop ph [] acc = acc"
| "where_loop ph ((field, v) # items) (conditions, vals) =
     (if v = PNone
      then where_loop ph items (conditions @ [[dq] @ field @ [dq] @ '' IS NULL''], vals)
      else where_loop ph items (conditions @ [[dq] @ field @ [dq] @ '' = '' @ ph], vals @ [v]))"

text \<open>\<^verbatim>\<open>delete(table, where=None, **kwargs)\<close>, lines 521-542.\<close>

definition delete_statement ::
  "string \<Rightarrow> string \<Rightarrow> dict option \<Rightarrow> dict \<Rightarrow> string \<times> pyval list"
where
  "delete_statement ph table wh kwargs =
     (let kw = (case wh of None \<Rightarrow> kwargs | Some m \<Rightarrow> dict_update kwargs m);
          (conditions, vals) = where_loop ph kw ([], []);
          conditions = join '' AND'' conditions;
          sql = ''DELETE FROM '' @ [dq] @ table @ [dq] @ '' ''
      in (if conditions \<noteq> [] then sql @ '' WHERE '' @ conditions else sql, vals))"

definition delete ::
  "'b driver \<Rightarrow> string \<Rightarrow> dict option \<Rightarrow> dict \<Rightarrow> 'b session \<Rightarrow> (error + int) \<times> 'b session"
where
  "delete d table wh kwargs s =
     (case delete_statement (placeholder s) table wh kwargs of
        (sql, vals) \<Rightarrow>
          (case query d (Some sql) vals False False s of
             (Inl e, s1) \<Rightarrow> (Inl e, s1)
           | (Inr r, s1) \<Rightarrow> (Inr (affected_rows s1), s1)))"

text \<open>The loop over the new values in \<^verbatim>\<open>update\<close>, lines 567-573 (\<open>set_fields\<close> is the list \<^verbatim>\<open>fields\<close>).\<close>

fun set_loop :: "string \<Rightarrow> dict \<Rightarrow> string list \<times> pyval list \<Rightarrow> string list \<times> pyval list" where
  "set_loop ph [] acc = acc"
| "set_loop ph ((field, v) # items) (set_fields, vals) =
     (if v = PNone
      then set_loop ph items (set_fields @ [[dq] @ field @ [dq] @ '' = NULL''], vals)
      else set_loop ph items (set_fields @ [[dq] @ field @ [dq] @ '' = '' @ ph], vals @ [v]))"

text \<open>
  \<^verbatim>\<open>update(table, data, where)\<close>, lines 562-590. An argument of \<^verbatim>\<open>update\<close> is a
  dictionary or some other Python value; the result is \<^verbatim>\<open>False\<close> or the count of
  affected rows.
\<close>

datatype pyarg = Dict dict | Other pyval

definition update_statement :: "string \<Rightarrow> string \<Rightarrow> dict \<Rightarrow> dict \<Rightarrow> string \<times> pyval list" where
  "update_statement ph table data wh =
     (let (set_fields, vals) = set_loop ph data ([], []);
          (conditions, vals) = where_loop ph wh ([], vals);
          set_fields = join '', '' set_fields;
          conditions = join '' AND '' conditions;
          sql = ''UPDATE '' @ [dq] @ table @ [dq] @ '' SET '' @ set_fields @ '' WHERE '' @ conditions
      in (sql, vals))"

definition update ::
  "'b driver \<Rightarrow> string \<Rightarrow> pyarg \<Rightarrow> pyarg \<Rightarrow> 'b session \<Rightarrow> (error + pyval) \<times> 'b session"
where
  "update d table data wh s =
     (case data of
        Other x \<Rightarrow> (Inr (PBool False), s)
      | Dict data_items \<Rightarrow>
          (case wh of
             Other y \<Rightarrow> (Inr (PBool False), s)
           | Dict where_items \<Rightarrow>
               (case update_statement (placeholder s) table data_items where_items of
                  (sql, vals) \<Rightarrow>
                    (case query d (Some sql) vals False False s of
                       (Inl e, s1) \<Rightarrow> (Inl e, s1)
                     | (Inr r, s1) \<Rightarrow> (Inr (PInt (affected_rows s1)), s1)))))"

section \<open>The transaction controller\<close>

text \<open>\<^verbatim>\<open>begin_transaction\<close>, \<^verbatim>\<open>rollback\<close> and \<^verbatim>\<open>commit\<close>, lines 596-630.\<close>

definition begin_transaction :: "'b driver \<Rightarrow> 'b session \<Rightarrow> (error + unit) \<times> 'b session" where
  "begin_transaction d s =
     (if connection s = None
      then (Inl (RuntimeError ''Cannot BEGIN/START TRANSACTION on no connection. Connect first.''), s)
      else
        (case begin_fn d (backend s) of
           (Some e, b) \<Rightarrow> (Inl e, s\<lparr>backend := b\<rparr>)
         | (None, b) \<Rightarrow> (Inr (), s\<lparr>backend := b, in_transaction := True\<rparr>)))"

definition rollback :: "'b driver \<Rightarrow> 'b session \<Rightarrow> (error + unit) \<times> 'b session" where
  "rollback d s =
     (if connection s = None \<or> \<not> in_transaction s
      then (Inl (RuntimeError (''Cannot ROLLBACK. There'' @ [sq] @ ''s no current connection'')), s)
      else
        (case rollback_fn d (backend s) of
           (Some e, b) \<Rightarrow> (Inl e, s\<lparr>backend := b\<rparr>)
         | (None, b) \<Rightarrow> (Inr (), s\<lparr>backend := b, in_transaction := False\<rparr>)))"

definition commit :: "'b driver \<Rightarrow> 'b session \<Rightarrow> (error + unit) \<times> 'b session" where
  "commit d s =
     (if connection s = None
      then (Inl (RuntimeError (''Cannot COMMIT. There'' @ [sq] @ ''s no current connection.'')), s)
      else
        (case commit_fn d (backend s) of
           (Some e, b) \<Rightarrow> (Inl e, s\<lparr>backend := b\<rparr>)
         | (None, b) \<Rightarrow> (Inr (), s\<lparr>backend := b, in_transaction := False\<rparr>)))"

section \<open>A driver and a session to run the model on\<close>

text \<open>
  A driver in the manner of PyMySQL: no \<^verbatim>\<open>mogrify\<close> on the cursor, every statement
  reports one affected row and the key 7, \<^verbatim>\<open>fetchall\<close> returns no rows, and the
  backend's state counts the statements it ran. \<open>failing_fetch\<close> is the same driver with a
  \<^verbatim>\<open>fetchall\<close> that raises, as psycopg2's does after a statement without a result
  set. \<open>session0\<close> is a freshly constructed session with its connection open.
\<close>

definition driver0 :: "nat driver" where
  "driver0 =
     \<lparr>open_fn = (\<lambda>b. (None, b)), begin_fn = (\<lambda>b. (None, b)), commit_fn = (\<lambda>b. (None, b)),
      rollback_fn = (\<lambda>b. (None, b)), mogrify_fn = None,
      run_fn = (\<lambda>c b. (Inr (1, PInt 7), Suc b)),
      fetchall_fn = (\<lambda>c b. (Inr (Some []), b)),
      elapsed = ''0:00:00'', caller = ''file app.py, function main''\<rparr>"

definition failing_fetch :: "nat driver" where
  "failing_fetch = driver0\<lparr>fetchall_fn := (\<lambda>c b. (Inl (BackendError ''no results to fetch''), b))\<rparr>"

definition session0 :: "nat session" where
  "session0 =
     \<lparr>backend = 0, connection = Some [], in_transaction = False, save_queries = False,
      saved_queries = [], last_insert_id = PInt 0, last_query = PNone, last_result = QNone,
      affected_rows = 0, queries_executed = 0, placeholder = ''%s''\<rparr>"

section \<open>The builders' statements in the words of the spec\<close>

text \<open>
  What the spec says an entry of a mapping contributes. In the SET clause of an update a
  \<^verbatim>\<open>None\<close> value is "a literal NULL assignment with no corresponding bound argument";
  in a condition a \<^verbatim>\<open>None\<close> value "becomes an IS NULL test, which contributes no bound
  argument"; any other value gives the quoted column, an equals sign and one placeholder,
  and is bound. \<open>bound_args_spec\<close> is the list of the bound values of a mapping, in its
  order.
\<close>

definition set_item_spec :: "string \<Rightarrow> string \<times> pyval \<Rightarrow> string" where
  "set_item_spec ph item =
     [dq] @ fst item @ [dq] @ (if snd item = PNone then '' = NULL'' else '' = '' @ ph)"

definition where_item_spec :: "string \<Rightarrow> string \<times> pyval \<Rightarrow> string" where
  "where_item_spec ph item =
     [dq] @ fst item @ [dq] @ (if snd item = PNone then '' IS NULL'' else '' = '' @ ph)"

definition bound_args_spec :: "dict \<Rightarrow> pyval list" where
  "bound_args_spec items = filter (\<lambda>v. v \<noteq> PNone) (map snd items)"

text \<open>A driver like \<open>driver0\<close> whose \<^verbatim>\<open>fetchall\<close> returns one row with one column.\<close>

definition one_row_driver :: "nat driver" where
  "one_row_driver = driver0\<lparr>fetchall_fn := (\<lambda>c b. (Inr (Some [[(''id'', PInt 1)]]), b))\<rparr>"

section \<open>The normalizer's steps in the words of the spec\<close>

text \<open>
  To say that every occurrence of a marker is replaced, in order and in the same number:
  \<open>str_split search t\<close> cuts \<open>t\<close> at the occurrences of \<open>search\<close> found from the left
  (as Python's \<^verbatim>\<open>t.split(search)\<close>), and \<open>occurs search p\<close> says that \<open>search\<close> occurs
  somewhere in \<open>p\<close>.
\<close>

fun occurs :: "string \<Rightarrow> string \<Rightarrow> bool" where
  "occurs search [] = (search = [])"
| "occurs search (c # cs) = (take (length search) (c # cs) = search \<or> occurs search cs)"

function str_split :: "string \<Rightarrow> string \<Rightarrow> string list" where
  "str_split search [] = [[]]"
| "str_split search (c # cs) =
     (if search \<noteq> [] \<and> take (length search) (c # cs) = search
      then [] # str_split search (drop (length search) (c # cs))
      else (case str_split search cs of [] \<Rightarrow> [[c]] | p # ps \<Rightarrow> (c # p) # ps))"
  by pat_completeness auto
termination
  by (relation "measure (\<lambda>(search, subject). length subject)") auto

text \<open>
  To say that every run of percent signs is collapsed to one: \<open>percent_run t\<close> says that
  \<open>t\<close> has two percent signs in a row, and \<open>drop_repeated_percent None t\<close> is \<open>t\<close>
  without the percent signs that directly follow a percent sign.
\<close>

fun percent_run :: "string \<Rightarrow> bool" where
  "percent_run (x # y # r) = ((x = CHR ''%'' \<and> y = CHR ''%'') \<or> percent_run (y # r))"
| "percent_run r = False"

fun drop_repeated_percent :: "char option \<Rightarrow> string \<Rightarrow> string" where
  "drop_repeated_percent prev [] = []"
| "drop_repeated_percent prev (x # xs) =
     (if prev = Some CHR ''%'' \<and> x = CHR ''%''
      then drop_repeated_percent (Some x) xs
      else x # drop_repeated_percent (Some x) xs)"

section \<open>The placeholder normalizer\<close>

text \<open>
  A replacement keeps the pieces between the occurrences and puts the replacement where
  the occurrences were; no piece holds an occurrence that was left.
\<close>

lemma str_split_nonempty: "str_split search t \<noteq> []"
  by (induction search t rule: str_split.induct) (auto split: list.splits)

lemma join_Cons: "ys \<noteq> [] \<Longrightarrow> join sep (x # ys) = x @ sep @ join sep ys"
  by (cases ys) simp_all

lemma join_Cons_Cons: "join sep ((c # p) # ps) = c # join sep (p # ps)"
  by (cases ps) simp_all

lemma str_split_match:
  "search \<noteq> [] \<Longrightarrow> take (length search) (c # cs) = search \<Longrightarrow>
   str_split search (c # cs) = [] # str_split search (drop (length search) (c # cs))"
  by simp

lemma str_split_skip:
  "\<not> (search \<noteq> [] \<and> take (length search) (c # cs) = search) \<Longrightarrow>
   str_split search cs = p # ps \<Longrightarrow> str_split search (c # cs) = (c # p) # ps"
  by (simp only: str_split.simps list.case if_False)

lemma str_replace_match:
  "search \<noteq> [] \<Longrightarrow> take (length search) (c # cs) = search \<Longrightarrow>
   str_replace search rep (c # cs) = rep @ str_replace search rep (drop (length search) (c # cs))"
  by simp

lemma str_replace_skip:
  "\<not> (search \<noteq> [] \<and> take (length search) (c # cs) = search) \<Longrightarrow>
   str_replace search rep (c # cs) = c # str_replace search rep cs"
  by (simp only: str_replace.simps if_False)

lemma join_str_split: "join search (str_split search t) = t"
proof (induction search t rule: str_split.induct)
  case (1 search)
  then show ?case by simp
next
  case (2 search c cs)
  show ?case
  proof (cases "search \<noteq> [] \<and> take (length search) (c # cs) = search")
    case True
    then have "join search (str_split search (c # cs))
        = search @ join search (str_split search (drop (length search) (c # cs)))"
      by (simp add: join_Cons str_split_nonempty)
    also have "\<dots> = search @ drop (length search) (c # cs)"
      using 2(1) True by simp
    also have "\<dots> = c # cs"
      using True by (metis append_take_drop_id)
    finally show ?thesis .
  next
    case False
    obtain p ps where pps: "str_split search cs = p # ps"
      using str_split_nonempty [of search cs] by (cases "str_split search cs") auto
    have "join search (p # ps) = cs"
      using 2(2) [OF False] pps by simp
    then show ?thesis
      by (simp only: str_split_skip [OF False pps] join_Cons_Cons)
  qed
qed

lemma str_replace_join_split: "str_replace search rep t = join rep (str_split search t)"
proof (induction search t rule: str_split.induct)
  case (1 search)
  then show ?case by simp
next
  case (2 search c cs)
  show ?case
  proof (cases "search \<noteq> [] \<and> take (length search) (c # cs) = search")
    case True
    then show ?thesis
      using 2(1) by (simp add: join_Cons str_split_nonempty)
  next
    case False
    obtain p ps where pps: "str_split search cs = p # ps"
      using str_split_nonempty [of search cs] by (cases "str_split search cs") auto
    have "str_replace search rep cs = join rep (p # ps)"
      using 2(2) [OF False] pps by simp
    then show ?thesis
      by (simp only: str_split_skip [OF False pps] str_replace_skip [OF False] join_Cons_Cons)
  qed
qed

lemma str_split_first_prefix:
  "str_split search t = p # ps \<Longrightarrow> take (length p) t = p"
proof (induction search t arbitrary: p ps rule: str_split.induct)
  case (1 search)
  then show ?case by simp
next
  case (2 search c cs)
  show ?case
  proof (cases "search \<noteq> [] \<and> take (length search) (c # cs) = search")
    case True
    then show ?thesis using 2(3) by auto
  next
    case False
    obtain q qs where qqs: "str_split search cs = q # qs"
      using str_split_nonempty [of search cs] by (cases "str_split search cs") auto
    have pre: "take (length q) cs = q"
      using 2(2) [OF False qqs] .
    have "p = c # q"
      using 2(3) str_split_skip [OF False qqs] by simp
    then show ?thesis
      using pre by simp
  qed
qed

lemma str_split_no_occurrence:
  "search \<noteq> [] \<Longrightarrow> p \<in> set (str_split search t) \<Longrightarrow> \<not> occurs search p"
proof (induction search t arbitrary: p rule: str_split.induct)
  case (1 search)
  then show ?case by simp
next
  case (2 search c cs)
  show ?case
  proof (cases "search \<noteq> [] \<and> take (length search) (c # cs) = search")
    case True
    then show ?thesis
      using 2(1) [OF True] 2(3) 2(4) by (auto simp: str_split_match)
  next
    case False
    obtain q qs where qqs: "str_split search cs = q # qs"
      using str_split_nonempty [of search cs] by (cases "str_split search cs") auto
    have pre: "take (length q) cs = q"
      using str_split_first_prefix [OF qqs] .
    have split: "str_split search (c # cs) = (c # q) # qs"
      using str_split_skip [OF False qqs] .
    have ih: "\<And>r. r \<in> set (q # qs) \<Longrightarrow> \<not> occurs search r"
      using 2(2) [OF False 2(3)] qqs by simp
    have miss: "take (length search) (c # cs) \<noteq> search"
      using False 2(3) by simp
    have head: "take (length search) (c # q) \<noteq> search"
    proof
      assume eq: "take (length search) (c # q) = search"
      have "length (take (length search) (c # q)) = length search"
        using eq by simp
      then have len: "length search \<le> length (c # q)"
        by simp
      have "take (length search) (c # cs) = take (length search) (take (length (c # q)) (c # cs))"
        using len by (simp only: take_take min_absorb1)
      also have "take (length (c # q)) (c # cs) = c # q"
        using pre by simp
      finally show False using eq miss by simp
    qed
    have "\<not> occurs search (c # q)"
      using head ih [of q] by simp
    moreover have "p = c # q \<or> p \<in> set qs"
      using 2(4) unfolding split by simp
    ultimately show ?thesis
      using ih by auto
  qed
qed

text \<open>
  The collapse keeps every character except a percent sign that follows a percent sign,
  so no two percent signs are adjacent afterwards.
\<close>

lemma drop_repeated_after_percent:
  "drop_repeated_percent (Some CHR ''%'') xs
     = drop_repeated_percent (Some CHR ''%'') (dropWhile (\<lambda>x. x = CHR ''%'') xs)"
  by (induction xs) simp_all

lemma drop_repeated_prev:
  "xs = [] \<or> hd xs \<noteq> CHR ''%'' \<Longrightarrow>
   drop_repeated_percent prev xs = drop_repeated_percent None xs"
  by (cases xs) auto

lemma preg_replace_runs_spec: "preg_replace_runs t = drop_repeated_percent None t"
proof (induction t rule: preg_replace_runs.induct)
  case 1
  then show ?case by simp
next
  case (2 c cs)
  show ?case
  proof (cases "c = CHR ''%'' \<and> take 1 cs = ''%''")
    case True
    let ?r = "dropWhile (\<lambda>x. x = CHR ''%'') cs"
    have nohead: "?r = [] \<or> hd ?r \<noteq> CHR ''%''"
      using hd_dropWhile [of "\<lambda>x. x = CHR ''%''" cs] by blast
    have "preg_replace_runs (c # cs) = CHR ''%'' # drop_repeated_percent None ?r"
      using True 2(1) by simp
    also have "drop_repeated_percent None ?r = drop_repeated_percent (Some CHR ''%'') ?r"
      using drop_repeated_prev [OF nohead, of "Some CHR ''%''"] by simp
    also have "\<dots> = drop_repeated_percent (Some CHR ''%'') cs"
      using drop_repeated_after_percent [of cs] by simp
    finally show ?thesis using True by simp
  next
    case False
    have nohead: "c \<noteq> CHR ''%'' \<or> cs = [] \<or> hd cs \<noteq> CHR ''%''"
      using False by (cases cs) auto
    have "preg_replace_runs (c # cs) = c # preg_replace_runs cs"
      using False by (simp only: preg_replace_runs.simps if_False)
    then have "preg_replace_runs (c # cs) = c # drop_repeated_percent None cs"
      using 2(2) [OF False] by simp
    moreover have "drop_repeated_percent (Some c) cs = drop_repeated_percent None cs"
      using nohead by (cases cs) auto
    ultimately show ?thesis by simp
  qed
qed

lemma percent_run_Cons:
  "percent_run (x # r) = ((x = CHR ''%'' \<and> take 1 r = ''%'') \<or> percent_run r)"
  by (cases r) auto

lemma no_run_drop_repeated:
  "\<not> percent_run (drop_repeated_percent prev t) \<and>
   (prev = Some CHR ''%'' \<longrightarrow> take 1 (drop_repeated_percent prev t) \<noteq> ''%'')"
proof (induction t arbitrary: prev)
  case Nil
  then show ?case by simp
next
  case (Cons x xs)
  show ?case
  proof (cases "prev = Some CHR ''%'' \<and> x = CHR ''%''")
    case True
    then show ?thesis using Cons.IH [of "Some x"] by simp
  next
    case False
    have "drop_repeated_percent prev (x # xs) = x # drop_repeated_percent (Some x) xs"
      using False by auto
    then show ?thesis
      using Cons.IH [of "Some x"] False by (auto simp: percent_run_Cons)
  qed
qed

lemma preg_replace_runs_no_run: "\<not> percent_run (preg_replace_runs t)"
  using no_run_drop_repeated [of None t] by (simp add: preg_replace_runs_spec)

text \<open>
  What \<^verbatim>\<open>prepare\<close> returns on a session whose connection is live or can be opened.
\<close>

lemma connect_live:
  assumes "connect d s = (None, s1)"
  shows "\<exists>c. connection s1 = Some c \<and> connect d s1 = (None, s1)"
    and "placeholder s1 = placeholder s"
    and "queries_executed s1 = queries_executed s"
  using assms by (auto simp: connect_def split: option.splits prod.splits)

lemma prepare_returns:
  assumes conn: "connect d s = (None, s1)"
  shows "fst (prepare d (Some sql) args s) =
           (if args = [] then Inr (Some (rewrite (placeholder s) sql))
            else case mogrify_fn d of
                   None \<Rightarrow> Inr (Some (rewrite (placeholder s) sql))
                 | Some m \<Rightarrow>
                     (case m (Some (rewrite (placeholder s) sql)) args of
                        Inl e \<Rightarrow> Inl e
                      | Inr clean_sql \<Rightarrow> Inr (Some clean_sql)))"
proof -
  obtain c where c: "connection s1 = Some c"
    using connect_live(1) [OF conn] by blast
  show ?thesis
    using conn c connect_live(2) [OF conn]
    by (simp add: prepare_def cursor_def Let_def split: option.splits sum.splits)
qed

text \<open>
  Claim C1. For a template that is not \<^verbatim>\<open>None\<close>, on a session that has or gets a
  connection, \<^verbatim>\<open>prepare\<close> without arguments (as \<^verbatim>\<open>query\<close> calls it), or on a cursor
  without \<^verbatim>\<open>mogrify\<close>, returns the rewritten template, and otherwise hands the
  rewritten template to \<^verbatim>\<open>mogrify\<close>. The rewriting replaces, in this order, the
  single-quoted marker, the double-quoted marker, \<^verbatim>\<open>%f\<close> and \<^verbatim>\<open>%d\<close> by the
  placeholder and then collapses the runs of percent signs. Each replacement puts the
  placeholder at every occurrence of what it searches, found from the left, and keeps the
  pieces in between, so the tokens keep their order and number; the collapse drops
  exactly the percent signs that follow a percent sign, so every run becomes one sign.
\<close>

theorem prepare_normalizes:
  assumes conn: "connect d s = (None, s1)"
    and search: "search \<noteq> []"
  shows "fst (prepare d (Some sql) [] s) = Inr (Some (rewrite (placeholder s) sql)) \<and>
         (mogrify_fn d = None \<longrightarrow>
            fst (prepare d (Some sql) args s) = Inr (Some (rewrite (placeholder s) sql))) \<and>
         (mogrify_fn d = Some m \<longrightarrow> args \<noteq> [] \<longrightarrow>
            fst (prepare d (Some sql) args s) =
              (case m (Some (rewrite (placeholder s) sql)) args of
                 Inl e \<Rightarrow> Inl e
               | Inr clean_sql \<Rightarrow> Inr (Some clean_sql))) \<and>
         rewrite ph sql =
           preg_replace_runs
             (str_replace ''%d'' ph
               (str_replace ''%f'' ph
                 (str_replace ([dq] @ ''%s'' @ [dq]) ph
                   (str_replace ([sq] @ ''%s'' @ [sq]) ph sql)))) \<and>
         str_replace search ph t = join ph (str_split search t) \<and>
         join search (str_split search t) = t \<and>
         (\<forall>p \<in> set (str_split search t). \<not> occurs search p) \<and>
         preg_replace_runs t = drop_repeated_percent None t \<and>
         \<not> percent_run (preg_replace_runs t)"
proof -
  note r = prepare_returns [OF conn, of sql]
  have a: "fst (prepare d (Some sql) [] s) = Inr (Some (rewrite (placeholder s) sql))"
    using r [of "[]"] by simp
  have b: "mogrify_fn d = None \<longrightarrow>
            fst (prepare d (Some sql) args s) = Inr (Some (rewrite (placeholder s) sql))"
    using r [of args] by simp
  have c: "mogrify_fn d = Some m \<longrightarrow> args \<noteq> [] \<longrightarrow>
            fst (prepare d (Some sql) args s) =
              (case m (Some (rewrite (placeholder s) sql)) args of
                 Inl e \<Rightarrow> Inl e
               | Inr clean_sql \<Rightarrow> Inr (Some clean_sql))"
    using r [of args] by simp
  have e: "rewrite ph sql =
           preg_replace_runs
             (str_replace ''%d'' ph
               (str_replace ''%f'' ph
                 (str_replace ([dq] @ ''%s'' @ [dq]) ph
                   (str_replace ([sq] @ ''%s'' @ [sq]) ph sql))))"
    by (simp add: rewrite_def)
  have f: "\<forall>p \<in> set (str_split search t). \<not> occurs search p"
    using str_split_no_occurrence [OF search] by blast
  show ?thesis
    using a b c e f str_replace_join_split [of search ph t] join_str_split [of search t]
      preg_replace_runs_spec [of t] preg_replace_runs_no_run [of t]
    by blast
qed

theorem prepare_normalizes_witness:
  "connect driver0 session0 = (None, session0) \<and>
   ''%f'' \<noteq> [] \<and>
   fst (prepare driver0
         (Some (''SELECT '' @ [sq] @ ''%s'' @ [sq] @ '', '' @ [dq] @ ''%s'' @ [dq] @ '', %f, %d, 100%%''))
         [] session0)
     = Inr (Some ''SELECT %s, %s, %s, %s, 100%'') \<and>
   str_split ''%f'' ''a %f, %%f'' = [''a '', '', %'', []] \<and>
   str_replace ''%f'' ''%s'' ''a %f, %%f'' = ''a %s, %%s'' \<and>
   preg_replace_runs ''a %s, %%s'' = ''a %s, %s'' \<and>
   \<not> percent_run (preg_replace_runs ''a %s, %%s'')"
proof -
  have h1: "connect driver0 session0 = (None, session0)"
    by (simp add: connect_def session0_def)
  have h2: "''%f'' \<noteq> []"
    by simp
  have ph: "placeholder session0 = ''%s''"
    by (simp add: session0_def)
  have rw: "rewrite ''%s''
       (''SELECT '' @ [sq] @ ''%s'' @ [sq] @ '', '' @ [dq] @ ''%s'' @ [dq] @ '', %f, %d, 100%%'')
       = ''SELECT %s, %s, %s, %s, 100%''"
    by (simp add: rewrite_def sq_def dq_def)
  have sp: "str_split ''%f'' ''a %f, %%f'' = [''a '', '', %'', []]"
    by simp
  have pr: "preg_replace_runs ''a %s, %%s'' = ''a %s, %s''"
    by simp
  note T = prepare_normalizes [OF h1 h2, where ph = "''%s''" and t = "''a %f, %%f''"
        and sql = "''SELECT '' @ [sq] @ ''%s'' @ [sq] @ '', '' @ [dq] @ ''%s'' @ [dq] @ '', %f, %d, 100%%''"]
  have c3: "fst (prepare driver0
         (Some (''SELECT '' @ [sq] @ ''%s'' @ [sq] @ '', '' @ [dq] @ ''%s'' @ [dq] @ '', %f, %d, 100%%''))
         [] session0)
     = Inr (Some ''SELECT %s, %s, %s, %s, 100%'')"
    using T [THEN conjunct1] by (simp only: ph rw)
  have c5: "str_replace ''%f'' ''%s'' ''a %f, %%f'' = ''a %s, %%s''"
    by simp
  have c7: "\<not> percent_run (preg_replace_runs ''a %s, %%s'')"
    by (simp only: pr) simp
  show ?thesis
    using h1 h2 c3 sp c5 pr c7 by blast
qed

section \<open>The transaction controller's round trips\<close>

text \<open>
  Claim C2. On a session with a live connection and a backend whose transaction calls
  succeed: \<^verbatim>\<open>begin_transaction\<close> sets the in-transaction flag, and a \<^verbatim>\<open>rollback\<close> or a
  \<^verbatim>\<open>commit\<close> after it succeeds and leaves the flag false; a \<^verbatim>\<open>commit\<close> with no
  \<^verbatim>\<open>begin_transaction\<close> before it succeeds and leaves the flag false; a \<^verbatim>\<open>rollback\<close>
  while the flag is false raises \<^verbatim>\<open>RuntimeError\<close> and leaves the whole session, the
  flag with it, as it was.
\<close>

theorem transaction_round_trip:
  assumes live: "connection s \<noteq> None"
    and begin_ok: "\<forall>b. fst (begin_fn d b) = None"
    and commit_ok: "\<forall>b. fst (commit_fn d b) = None"
    and rollback_ok: "\<forall>b. fst (rollback_fn d b) = None"
  shows "fst (begin_transaction d s) = Inr () \<and>
         in_transaction (snd (begin_transaction d s)) \<and>
         fst (rollback d (snd (begin_transaction d s))) = Inr () \<and>
         \<not> in_transaction (snd (rollback d (snd (begin_transaction d s)))) \<and>
         fst (commit d (snd (begin_transaction d s))) = Inr () \<and>
         \<not> in_transaction (snd (commit d (snd (begin_transaction d s)))) \<and>
         fst (commit d s) = Inr () \<and>
         \<not> in_transaction (snd (commit d s)) \<and>
         (\<not> in_transaction s \<longrightarrow>
            (\<exists>msg. fst (rollback d s) = Inl (RuntimeError msg)) \<and> snd (rollback d s) = s)"
proof -
  obtain b1 where b1: "begin_fn d (backend s) = (None, b1)"
    using begin_ok by (metis fst_conv surj_pair)
  have s1: "begin_transaction d s = (Inr (), s\<lparr>backend := b1, in_transaction := True\<rparr>)"
    using live b1 by (simp add: begin_transaction_def)
  obtain b2 where b2: "rollback_fn d b1 = (None, b2)"
    using rollback_ok by (metis fst_conv surj_pair)
  obtain b3 where b3: "commit_fn d b1 = (None, b3)"
    using commit_ok by (metis fst_conv surj_pair)
  obtain b4 where b4: "commit_fn d (backend s) = (None, b4)"
    using commit_ok by (metis fst_conv surj_pair)
  have r: "rollback d (s\<lparr>backend := b1, in_transaction := True\<rparr>)
             = (Inr (), s\<lparr>backend := b2, in_transaction := False\<rparr>)"
    using live b2 by (simp add: rollback_def)
  have c: "commit d (s\<lparr>backend := b1, in_transaction := True\<rparr>)
             = (Inr (), s\<lparr>backend := b3, in_transaction := False\<rparr>)"
    using live b3 by (simp add: commit_def)
  have c0: "commit d s = (Inr (), s\<lparr>backend := b4, in_transaction := False\<rparr>)"
    using live b4 by (simp add: commit_def)
  have r0: "\<not> in_transaction s \<longrightarrow>
            (\<exists>msg. fst (rollback d s) = Inl (RuntimeError msg)) \<and> snd (rollback d s) = s"
    by (simp add: rollback_def)
  show ?thesis
    using s1 r c c0 r0 by simp
qed

theorem transaction_round_trip_witness:
  "connection session0 \<noteq> None \<and>
   (\<forall>b. fst (begin_fn driver0 b) = None) \<and>
   (\<forall>b. fst (commit_fn driver0 b) = None) \<and>
   (\<forall>b. fst (rollback_fn driver0 b) = None) \<and>
   \<not> in_transaction session0 \<and>
   fst (begin_transaction driver0 session0) = Inr () \<and>
   in_transaction (snd (begin_transaction driver0 session0)) \<and>
   \<not> in_transaction (snd (rollback driver0 (snd (begin_transaction driver0 session0)))) \<and>
   \<not> in_transaction (snd (commit driver0 (snd (begin_transaction driver0 session0)))) \<and>
   fst (commit driver0 session0) = Inr () \<and>
   \<not> in_transaction (snd (commit driver0 session0)) \<and>
   (\<exists>msg. fst (rollback driver0 session0) = Inl (RuntimeError msg)) \<and>
   snd (rollback driver0 session0) = session0"
proof -
  have h1: "connection session0 \<noteq> None" by (simp add: session0_def)
  have h2: "\<forall>b. fst (begin_fn driver0 b) = None" by (simp add: driver0_def)
  have h3: "\<forall>b. fst (commit_fn driver0 b) = None" by (simp add: driver0_def)
  have h4: "\<forall>b. fst (rollback_fn driver0 b) = None" by (simp add: driver0_def)
  have h5: "\<not> in_transaction session0" by (simp add: session0_def)
  show ?thesis
    using transaction_round_trip [OF h1 h2 h3 h4] h1 h2 h3 h4 h5 by blast
qed

section \<open>The guard of \<^verbatim>\<open>update\<close>\<close>

text \<open>
  Claim C9. When the data argument or the where argument of \<^verbatim>\<open>update\<close> is not a
  dictionary, \<^verbatim>\<open>update\<close> returns \<^verbatim>\<open>False\<close> and the session is the one it was given:
  no query ran, and the last query, the affected-row count and the counter of executed
  queries are unchanged.
\<close>

theorem update_rejects_non_mapping:
  "update d table (Other x) wh s = (Inr (PBool False), s) \<and>
   update d table data (Other y) s = (Inr (PBool False), s)"
  by (simp add: update_def split: pyarg.splits)

section \<open>The statements of the builder helpers\<close>

text \<open>
  The two loops add one text per entry and one bound value per entry that is not
  \<^verbatim>\<open>None\<close>, in the order of the mapping, after what the accumulators already hold.
\<close>

lemma where_loop_spec:
  "where_loop ph items (conditions, vals) =
     (conditions @ map (where_item_spec ph) items, vals @ bound_args_spec items)"
  by (induction items arbitrary: conditions vals)
     (auto simp: where_item_spec_def bound_args_spec_def)

lemma set_loop_spec:
  "set_loop ph items (set_fields, vals) =
     (set_fields @ map (set_item_spec ph) items, vals @ bound_args_spec items)"
  by (induction items arbitrary: set_fields vals)
     (auto simp: set_item_spec_def bound_args_spec_def)

lemma update_statement_spec:
  "update_statement ph table data wh =
     (''UPDATE '' @ [dq] @ table @ [dq] @ '' SET '' @ join '', '' (map (set_item_spec ph) data)
        @ '' WHERE '' @ join '' AND '' (map (where_item_spec ph) wh),
      bound_args_spec data @ bound_args_spec wh)"
  by (simp add: update_statement_def set_loop_spec where_loop_spec)

lemma update_example:
  "update_statement ''%s'' ''t'' [(''a'', PNone)] [(''b'', PInt 5)] =
     (''UPDATE '' @ [dq] @ ''t'' @ [dq] @ '' SET '' @ [dq] @ ''a'' @ [dq] @ '' = NULL WHERE ''
        @ [dq] @ ''b'' @ [dq] @ '' = %s'', [PInt 5])"
  by (simp add: update_statement_spec set_item_spec_def where_item_spec_def bound_args_spec_def)

text \<open>
  Claim C8. The statement of \<^verbatim>\<open>update\<close> has one SET item per data entry and one
  condition per where entry, in order: an entry with the value \<^verbatim>\<open>None\<close> is written
  as \<^verbatim>\<open>= NULL\<close> (in a condition, \<^verbatim>\<open>IS NULL\<close>) and binds nothing, any other entry has
  one placeholder and binds its value; the bound values of the data come before those of
  the conditions, and this statement with these arguments is what \<^verbatim>\<open>update\<close> hands to
  \<^verbatim>\<open>query\<close>.
\<close>

theorem update_null_and_bound_arguments:
  "update_statement ph table data wh =
     (''UPDATE '' @ [dq] @ table @ [dq] @ '' SET '' @ join '', '' (map (set_item_spec ph) data)
        @ '' WHERE '' @ join '' AND '' (map (where_item_spec ph) wh),
      bound_args_spec data @ bound_args_spec wh) \<and>
   update d table (Dict data) (Dict wh) s =
     (case query d (Some (fst (update_statement (placeholder s) table data wh)))
             (bound_args_spec data @ bound_args_spec wh) False False s of
        (Inl e, s1) \<Rightarrow> (Inl e, s1)
      | (Inr r, s1) \<Rightarrow> (Inr (PInt (affected_rows s1)), s1))"
  by (simp add: update_statement_spec update_def)

text \<open>
  \<^verbatim>\<open>kwargs.update(data)\<close>: a key of \<open>data\<close> takes the value \<open>data\<close> gives it, any other
  key keeps the value of \<open>kwargs\<close>.
\<close>

lemma dict_update_Cons:
  "dict_update kwargs ((k', v') # m) = dict_update (AList.update k' v' kwargs) m"
  by (simp add: dict_update_def)

lemma map_of_dict_update:
  "distinct (map fst m) \<Longrightarrow>
   map_of (dict_update kwargs m) k =
     (case map_of m k of Some v \<Rightarrow> Some v | None \<Rightarrow> map_of kwargs k)"
proof (induction m arbitrary: kwargs)
  case Nil
  then show ?case by (simp add: dict_update_def)
next
  case (Cons p m)
  obtain k' v' where p: "p = (k', v')" by (cases p)
  have notin: "map_of m k' = None"
    using Cons.prems p by (simp add: map_of_eq_None_iff)
  have ih: "map_of (dict_update (AList.update k' v' kwargs) m) k =
     (case map_of m k of Some v \<Rightarrow> Some v | None \<Rightarrow> map_of (AList.update k' v' kwargs) k)"
    using Cons.IH Cons.prems by simp
  show ?case
  proof (cases "k = k'")
    case True
    then show ?thesis using ih notin by (simp add: p dict_update_Cons update_conv')
  next
    case False
    then show ?thesis using ih
      by (simp add: p dict_update_Cons update_conv' split: option.splits)
  qed
qed

lemma foldl_append_concat: "foldl (\<lambda>acc v. acc @ v) acc vals = acc @ concat vals"
  by (induction vals arbitrary: acc) auto

text \<open>
  Claim C6. For the mapping \<^verbatim>\<open>{a: 1, b: 2}\<close> the statement of \<^verbatim>\<open>insert\<close> is
  \<^verbatim>\<open>INSERT INTO t (a, b) VALUES (ph, ph)\<close> with the two placeholders and the argument
  list \<^verbatim>\<open>(1, 2)\<close>; a call of \<^verbatim>\<open>insert\<close> that returns, returns the affected-row count
  of the session left by the \<^verbatim>\<open>query\<close> it made with its statement and arguments; with
  a mapping \<open>m\<close> and keyword pairs \<open>kw\<close> the columns and arguments are those of \<open>kw\<close>
  updated by \<open>m\<close>, where a key of \<open>m\<close> has the value of \<open>m\<close>.
\<close>

theorem insert_statement_arguments_result:
  assumes ok: "insert d table data kwargs s = (Inr n, s1)"
    and keys: "distinct (map fst m)"
  shows "insert_statement ph t (Some [(''a'', PInt 1), (''b'', PInt 2)]) [] =
           (''INSERT INTO '' @ t @ '' (a, b) VALUES ('' @ ph @ '', '' @ ph @ '')'',
            [PInt 1, PInt 2]) \<and>
         n = affected_rows s1 \<and>
         (\<exists>r. query d (Some (fst (insert_statement (placeholder s) table data kwargs)))
                 (snd (insert_statement (placeholder s) table data kwargs)) False False s
               = (Inr r, s1)) \<and>
         insert_statement ph t (Some m) kw =
           (''INSERT INTO '' @ t @ '' ('' @ join '', '' (map fst (dict_update kw m))
              @ '') VALUES ('' @ join '', '' (replicate (length (dict_update kw m)) ph) @ '')'',
            map snd (dict_update kw m)) \<and>
         map_of (dict_update kw m) k =
           (case map_of m k of Some v \<Rightarrow> Some v | None \<Rightarrow> map_of kw k)"
proof -
  have a: "insert_statement ph t (Some [(''a'', PInt 1), (''b'', PInt 2)]) [] =
           (''INSERT INTO '' @ t @ '' (a, b) VALUES ('' @ ph @ '', '' @ ph @ '')'',
            [PInt 1, PInt 2])"
    by (simp add: insert_statement_def dict_update_def numeral_2_eq_2)
  have b: "n = affected_rows s1 \<and>
         (\<exists>r. query d (Some (fst (insert_statement (placeholder s) table data kwargs)))
                 (snd (insert_statement (placeholder s) table data kwargs)) False False s
               = (Inr r, s1))"
    using ok by (auto simp: insert_def split: prod.splits sum.splits)
  have c: "insert_statement ph t (Some m) kw =
           (''INSERT INTO '' @ t @ '' ('' @ join '', '' (map fst (dict_update kw m))
              @ '') VALUES ('' @ join '', '' (replicate (length (dict_update kw m)) ph) @ '')'',
            map snd (dict_update kw m))"
    by (simp add: insert_statement_def Let_def)
  show ?thesis
    using a b c map_of_dict_update [OF keys] by simp
qed

theorem insert_statement_arguments_result_witness:
  "insert driver0 ''t'' (Some [(''a'', PInt 1), (''b'', PInt 2)]) [] session0
     = (Inr 1, snd (insert driver0 ''t'' (Some [(''a'', PInt 1), (''b'', PInt 2)]) [] session0)) \<and>
   distinct (map fst [(''a'', PInt 1), (''b'', PInt 2)]) \<and>
   affected_rows (snd (insert driver0 ''t'' (Some [(''a'', PInt 1), (''b'', PInt 2)]) [] session0)) = 1 \<and>
   map_of (dict_update [(''b'', PInt 9), (''c'', PInt 3)] [(''a'', PInt 1), (''b'', PInt 2)]) ''b''
     = Some (PInt 2)"
proof -
  have h1: "insert driver0 ''t'' (Some [(''a'', PInt 1), (''b'', PInt 2)]) [] session0
     = (Inr 1, snd (insert driver0 ''t'' (Some [(''a'', PInt 1), (''b'', PInt 2)]) [] session0))"
    by (simp add: insert_def insert_statement_def dict_update_def query_def connect_def
        cursor_def query_execute_def prepare_def query_fetch_def close_cursor_def
        driver0_def session0_def Let_def)
  have h2: "distinct (map fst [(''a'', PInt 1), (''b'', PInt 2)])"
    by simp
  show ?thesis
    using insert_statement_arguments_result
            [OF h1 h2, where ph = "''%s''" and t = "''t''"
               and kw = "[(''b'', PInt 9), (''c'', PInt 3)]" and k = "''b''"] h1 h2
    by simp
qed

text \<open>
  Claim C7. For the columns \<^verbatim>\<open>[a, b]\<close> and the rows \<^verbatim>\<open>[(1, 2), (3, 4)]\<close> the statement
  of \<^verbatim>\<open>bulk_insert\<close> has two groups of two placeholders and the argument list is
  \<^verbatim>\<open>(1, 2, 3, 4)\<close>; in general there is one group per row, each with one placeholder per
  column, and the arguments are the rows' values, row by row; a call that returns,
  returns the affected-row count of the session left by its \<^verbatim>\<open>query\<close>.
\<close>

theorem bulk_insert_statement_arguments_result:
  assumes ok: "bulk_insert d table columns vals s = (Inr n, s1)"
  shows "bulk_insert_statement ph t [''a'', ''b''] [[PInt 1, PInt 2], [PInt 3, PInt 4]] =
           (''INSERT INTO '' @ t @ '' (a, b) VALUES ('' @ ph @ '', '' @ ph @ ''), (''
              @ ph @ '', '' @ ph @ '')'',
            [PInt 1, PInt 2, PInt 3, PInt 4]) \<and>
         bulk_insert_statement ph t columns vals =
           (''INSERT INTO '' @ t @ '' ('' @ join '', '' columns @ '') VALUES ''
              @ join '', '' (replicate (length vals)
                  (''('' @ join '', '' (replicate (length columns) ph) @ '')'')),
            concat vals) \<and>
         n = affected_rows s1 \<and>
         (\<exists>r. query d (Some (fst (bulk_insert_statement (placeholder s) table columns vals)))
                 (concat vals) False False s = (Inr r, s1))"
proof -
  have a: "bulk_insert_statement ph t [''a'', ''b''] [[PInt 1, PInt 2], [PInt 3, PInt 4]] =
           (''INSERT INTO '' @ t @ '' (a, b) VALUES ('' @ ph @ '', '' @ ph @ ''), (''
              @ ph @ '', '' @ ph @ '')'',
            [PInt 1, PInt 2, PInt 3, PInt 4])"
    by (simp add: bulk_insert_statement_def numeral_2_eq_2)
  have b: "bulk_insert_statement ph t columns vals =
           (''INSERT INTO '' @ t @ '' ('' @ join '', '' columns @ '') VALUES ''
              @ join '', '' (replicate (length vals)
                  (''('' @ join '', '' (replicate (length columns) ph) @ '')'')),
            concat vals)" for ph t
    by (simp add: bulk_insert_statement_def foldl_append_concat)
  have c: "n = affected_rows s1 \<and>
         (\<exists>r. query d (Some (fst (bulk_insert_statement (placeholder s) table columns vals)))
                 (concat vals) False False s = (Inr r, s1))"
    using ok by (auto simp: bulk_insert_def b split: prod.splits sum.splits)
  show ?thesis
    using a b c by simp
qed

theorem bulk_insert_statement_arguments_result_witness:
  "bulk_insert driver0 ''t'' [''a'', ''b''] [[PInt 1, PInt 2], [PInt 3, PInt 4]] session0
     = (Inr 1, snd (bulk_insert driver0 ''t'' [''a'', ''b''] [[PInt 1, PInt 2], [PInt 3, PInt 4]] session0)) \<and>
   affected_rows (snd (bulk_insert driver0 ''t'' [''a'', ''b''] [[PInt 1, PInt 2], [PInt 3, PInt 4]] session0)) = 1 \<and>
   last_query (snd (bulk_insert driver0 ''t'' [''a'', ''b''] [[PInt 1, PInt 2], [PInt 3, PInt 4]] session0))
     = PStr ''INSERT INTO t (a, b) VALUES (%s, %s), (%s, %s)''"
proof -
  have h1: "bulk_insert driver0 ''t'' [''a'', ''b''] [[PInt 1, PInt 2], [PInt 3, PInt 4]] session0
     = (Inr 1, snd (bulk_insert driver0 ''t'' [''a'', ''b''] [[PInt 1, PInt 2], [PInt 3, PInt 4]] session0))"
    by (simp add: bulk_insert_def bulk_insert_statement_def query_def connect_def
        cursor_def query_execute_def prepare_def query_fetch_def close_cursor_def
        driver0_def session0_def numeral_2_eq_2 Let_def)
  have h2: "last_query (snd (bulk_insert driver0 ''t'' [''a'', ''b''] [[PInt 1, PInt 2], [PInt 3, PInt 4]] session0))
     = PStr ''INSERT INTO t (a, b) VALUES (%s, %s), (%s, %s)''"
    by (simp add: bulk_insert_def bulk_insert_statement_def query_def connect_def
        cursor_def query_execute_def prepare_def query_fetch_def close_cursor_def
        driver0_def session0_def numeral_2_eq_2 rewrite_def sq_def dq_def Let_def)
  show ?thesis
    using bulk_insert_statement_arguments_result [OF h1, where ph = "''%s''" and t = "''t''"] h1 h2
    by simp
qed

text \<open>
  The statement of \<^verbatim>\<open>delete\<close>: one condition per entry, \<^verbatim>\<open>IS NULL\<close> without a bound
  value for \<^verbatim>\<open>None\<close> and an equals-placeholder test with its bound value otherwise,
  joined by the separator of line 533; no WHERE clause when there is no entry.
\<close>

lemma delete_statement_spec:
  "delete_statement ph table wh kwargs =
     (let kw = (case wh of None \<Rightarrow> kwargs | Some m \<Rightarrow> dict_update kwargs m);
          conditions = join '' AND'' (map (where_item_spec ph) kw)
      in (if conditions \<noteq> []
          then ''DELETE FROM '' @ [dq] @ table @ [dq] @ ''  WHERE '' @ conditions
          else ''DELETE FROM '' @ [dq] @ table @ [dq] @ '' '',
          bound_args_spec kw))"
  by (simp add: delete_statement_def where_loop_spec Let_def)

text \<open>
  Claim C4. The claim's separator is \<^verbatim>\<open>" AND "\<close>; line 533 joins with
  \<^verbatim>\<open>' AND'\<close>, without the space after it, where \<^verbatim>\<open>update\<close> (line 584) joins with
  \<^verbatim>\<open>' AND '\<close>. For \<^verbatim>\<open>where={a: None, b: 5}\<close> on the table \<^verbatim>\<open>t\<close> the statement of
  \<^verbatim>\<open>delete\<close>, and the last query it leaves in the session, is
  \<^verbatim>\<open>DELETE FROM "t"  WHERE "a" IS NULL AND"b" = %s\<close>, with the bound arguments
  \<^verbatim>\<open>(5,)\<close>.
\<close>

theorem delete_joins_conditions_without_space:
  "delete_statement ''%s'' ''t'' (Some [(''a'', PNone), (''b'', PInt 5)]) [] =
     (''DELETE FROM '' @ [dq] @ ''t'' @ [dq] @ ''  WHERE '' @ [dq] @ ''a'' @ [dq]
        @ '' IS NULL AND'' @ [dq] @ ''b'' @ [dq] @ '' = %s'', [PInt 5]) \<and>
   last_query (snd (delete driver0 ''t'' (Some [(''a'', PNone), (''b'', PInt 5)]) [] session0)) =
     PStr (''DELETE FROM '' @ [dq] @ ''t'' @ [dq] @ ''  WHERE '' @ [dq] @ ''a'' @ [dq]
        @ '' IS NULL AND'' @ [dq] @ ''b'' @ [dq] @ '' = %s'')"
  by (simp add: delete_def delete_statement_def dict_update_def query_def connect_def cursor_def
      query_execute_def prepare_def query_fetch_def close_cursor_def driver0_def session0_def
      Let_def rewrite_def sq_def dq_def)

section \<open>The bookkeeping of \<^verbatim>\<open>query\<close>\<close>

text \<open>The fetch changes none of the four diagnostics.\<close>

lemma query_fetch_keeps:
  "affected_rows (snd (query_fetch d cur c one s)) = affected_rows s \<and>
   last_insert_id (snd (query_fetch d cur c one s)) = last_insert_id s \<and>
   last_query (snd (query_fetch d cur c one s)) = last_query s \<and>
   queries_executed (snd (query_fetch d cur c one s)) = queries_executed s"
  by (simp add: query_fetch_def close_cursor_def Let_def split: prod.splits sum.splits option.splits)

lemma prepare_live:
  "connection s = Some c \<Longrightarrow>
   prepare d (Some sql) [] s =
     (Inr (Some (rewrite (placeholder s) sql)), s\<lparr>connection := Some (c @ [True])\<rparr>)"
  by (simp add: prepare_def connect_def cursor_def)

lemma query_execute_proc:
  assumes run: "run_fn d (Callproc (Some name) args) (backend s) = (Inr (rowcount, lastrowid), b)"
  shows "query_execute d (Some name) args True s =
           (Inr (Callproc (Some name) args, rowcount, lastrowid),
            s\<lparr>backend := b, last_query := PStr (name @ join '', '' (map py_str args))\<rparr>)"
  using run by (simp add: query_execute_def)

lemma query_execute_plain:
  assumes c: "connection s = Some c"
    and final: "(case mogrify_fn d of
                   None \<Rightarrow> Inr (rewrite (placeholder s) sql)
                 | Some m \<Rightarrow> m (Some (rewrite (placeholder s) sql)) args) = Inr final"
    and run: "run_fn d (Execute (Some (rewrite (placeholder s) sql)) args) (backend s)
                = (Inr (rowcount, lastrowid), b)"
  shows "fst (query_execute d (Some sql) args False s)
           = Inr (Execute (Some (rewrite (placeholder s) sql)) args, rowcount, lastrowid) \<and>
         last_query (snd (query_execute d (Some sql) args False s)) = PStr final \<and>
         queries_executed (snd (query_execute d (Some sql) args False s)) = queries_executed s + 1"
proof (cases "mogrify_fn d")
  case None
  then show ?thesis
    using final run by (simp add: query_execute_def prepare_live [OF c] Let_def)
next
  case (Some m)
  then show ?thesis
    using final run by (simp add: query_execute_def prepare_live [OF c] Let_def)
qed

lemma query_proc_state:
  assumes conn: "connect d s = (None, s1)"
    and run: "run_fn d (Callproc (Some name) args) (backend s1) = (Inr (rowcount, lastrowid), b)"
  shows "\<exists>cur s3. query d (Some name) args True one s =
           query_fetch d cur (Callproc (Some name) args) one s3 \<and>
           affected_rows s3 = rowcount \<and> last_insert_id s3 = lastrowid \<and>
           last_query s3 = PStr (name @ join '', '' (map py_str args)) \<and>
           queries_executed s3 = queries_executed s"
proof -
  obtain c where c: "connection s1 = Some c"
    using connect_live(1) [OF conn] by blast
  let ?s2 = "s1\<lparr>connection := Some (c @ [True])\<rparr>"
  let ?s3 = "?s2\<lparr>backend := b, last_query := PStr (name @ join '', '' (map py_str args)),
                 affected_rows := rowcount, last_insert_id := lastrowid\<rparr>"
  have run2: "run_fn d (Callproc (Some name) args) (backend ?s2) = (Inr (rowcount, lastrowid), b)"
    using run by simp
  have "query d (Some name) args True one s =
          query_fetch d (length c) (Callproc (Some name) args) one ?s3"
    using conn c by (simp add: query_def cursor_def query_execute_proc [OF run2])
  moreover have "affected_rows ?s3 = rowcount \<and> last_insert_id ?s3 = lastrowid \<and>
           last_query ?s3 = PStr (name @ join '', '' (map py_str args)) \<and>
           queries_executed ?s3 = queries_executed s"
    using connect_live(3) [OF conn] by simp
  ultimately show ?thesis by blast
qed

lemma query_plain_state:
  assumes conn: "connect d s = (None, s1)"
    and final: "(case mogrify_fn d of
                   None \<Rightarrow> Inr (rewrite (placeholder s) sql)
                 | Some m \<Rightarrow> m (Some (rewrite (placeholder s) sql)) args) = Inr final"
    and run: "run_fn d (Execute (Some (rewrite (placeholder s) sql)) args) (backend s1)
                = (Inr (rowcount, lastrowid), b)"
  shows "\<exists>cur s3. query d (Some sql) args False one s =
           query_fetch d cur (Execute (Some (rewrite (placeholder s) sql)) args) one s3 \<and>
           affected_rows s3 = rowcount \<and> last_insert_id s3 = lastrowid \<and>
           last_query s3 = PStr final \<and>
           queries_executed s3 = queries_executed s + 1"
proof -
  obtain c where c: "connection s1 = Some c"
    using connect_live(1) [OF conn] by blast
  let ?s2 = "s1\<lparr>connection := Some (c @ [True])\<rparr>"
  have c2: "connection ?s2 = Some (c @ [True])" by simp
  have ph: "placeholder ?s2 = placeholder s"
    using connect_live(2) [OF conn] by simp
  have final2: "(case mogrify_fn d of
                   None \<Rightarrow> Inr (rewrite (placeholder ?s2) sql)
                 | Some m \<Rightarrow> m (Some (rewrite (placeholder ?s2) sql)) args) = Inr final"
    using final ph by (simp split: option.splits)
  have run2: "run_fn d (Execute (Some (rewrite (placeholder ?s2) sql)) args) (backend ?s2)
                = (Inr (rowcount, lastrowid), b)"
    using run ph by simp
  note ex = query_execute_plain [OF c2 final2 run2]
  obtain r t where rt: "query_execute d (Some sql) args False ?s2 = (r, t)"
    by (cases "query_execute d (Some sql) args False ?s2")
  have r: "r = Inr (Execute (Some (rewrite (placeholder s) sql)) args, rowcount, lastrowid)"
    and t: "last_query t = PStr final" "queries_executed t = queries_executed s + 1"
    using ex rt ph connect_live(3) [OF conn] by simp_all
  let ?s3 = "t\<lparr>affected_rows := rowcount, last_insert_id := lastrowid\<rparr>"
  have "query d (Some sql) args False one s =
          query_fetch d (length c) (Execute (Some (rewrite (placeholder s) sql)) args) one ?s3"
    using conn c rt r by (simp add: query_def cursor_def)
  moreover have "affected_rows ?s3 = rowcount \<and> last_insert_id ?s3 = lastrowid \<and>
           last_query ?s3 = PStr final \<and> queries_executed ?s3 = queries_executed s + 1"
    using t by simp
  ultimately show ?thesis by blast
qed

text \<open>
  Claim C3, as amended. Once the backend has run the statement, the session's
  affected-row count and last auto-generated key are the cursor's \<^verbatim>\<open>rowcount\<close> and
  \<^verbatim>\<open>lastrowid\<close> and the last query is the final statement text, whatever the fetch
  does afterwards. On the plain-SQL path that text is the prepared statement (mogrified
  where the cursor can) and the counter of executed queries goes up by one; on the
  stored-procedure path it is the name followed by the comma-joined arguments and the
  counter keeps its value.
\<close>

theorem query_bookkeeping:
  assumes conn: "connect d s = (None, s1)"
  shows "(run_fn d (Callproc (Some name) args) (backend s1) = (Inr (rowcount, lastrowid), b) \<longrightarrow>
            affected_rows (snd (query d (Some name) args True one s)) = rowcount \<and>
            last_insert_id (snd (query d (Some name) args True one s)) = lastrowid \<and>
            last_query (snd (query d (Some name) args True one s))
              = PStr (name @ join '', '' (map py_str args)) \<and>
            queries_executed (snd (query d (Some name) args True one s)) = queries_executed s) \<and>
         ((case mogrify_fn d of
             None \<Rightarrow> Inr (rewrite (placeholder s) sql)
           | Some m \<Rightarrow> m (Some (rewrite (placeholder s) sql)) args) = Inr final \<longrightarrow>
          run_fn d (Execute (Some (rewrite (placeholder s) sql)) args) (backend s1)
            = (Inr (rowcount, lastrowid), b) \<longrightarrow>
            affected_rows (snd (query d (Some sql) args False one s)) = rowcount \<and>
            last_insert_id (snd (query d (Some sql) args False one s)) = lastrowid \<and>
            last_query (snd (query d (Some sql) args False one s)) = PStr final \<and>
            queries_executed (snd (query d (Some sql) args False one s)) = queries_executed s + 1)"
proof (intro conjI impI)
  assume run: "run_fn d (Callproc (Some name) args) (backend s1) = (Inr (rowcount, lastrowid), b)"
  from query_proc_state [OF conn run, of one]
  obtain cur s3 where q: "query d (Some name) args True one s =
           query_fetch d cur (Callproc (Some name) args) one s3"
    and f: "affected_rows s3 = rowcount" "last_insert_id s3 = lastrowid"
      "last_query s3 = PStr (name @ join '', '' (map py_str args))"
      "queries_executed s3 = queries_executed s"
    by blast
  show "affected_rows (snd (query d (Some name) args True one s)) = rowcount"
    using q f query_fetch_keeps [of d cur "Callproc (Some name) args" one s3] by simp
  show "last_insert_id (snd (query d (Some name) args True one s)) = lastrowid"
    using q f query_fetch_keeps [of d cur "Callproc (Some name) args" one s3] by simp
  show "last_query (snd (query d (Some name) args True one s))
              = PStr (name @ join '', '' (map py_str args))"
    using q f query_fetch_keeps [of d cur "Callproc (Some name) args" one s3] by simp
  show "queries_executed (snd (query d (Some name) args True one s)) = queries_executed s"
    using q f query_fetch_keeps [of d cur "Callproc (Some name) args" one s3] by simp
next
  assume final: "(case mogrify_fn d of
             None \<Rightarrow> Inr (rewrite (placeholder s) sql)
           | Some m \<Rightarrow> m (Some (rewrite (placeholder s) sql)) args) = Inr final"
    and run: "run_fn d (Execute (Some (rewrite (placeholder s) sql)) args) (backend s1)
            = (Inr (rowcount, lastrowid), b)"
  from query_plain_state [OF conn final run, of one]
  obtain cur s3 where q: "query d (Some sql) args False one s =
           query_fetch d cur (Execute (Some (rewrite (placeholder s) sql)) args) one s3"
    and f: "affected_rows s3 = rowcount" "last_insert_id s3 = lastrowid"
      "last_query s3 = PStr final" "queries_executed s3 = queries_executed s + 1"
    by blast
  note k = query_fetch_keeps [of d cur "Execute (Some (rewrite (placeholder s) sql)) args" one s3]
  show "affected_rows (snd (query d (Some sql) args False one s)) = rowcount"
    using q f k by simp
  show "last_insert_id (snd (query d (Some sql) args False one s)) = lastrowid"
    using q f k by simp
  show "last_query (snd (query d (Some sql) args False one s)) = PStr final"
    using q f k by simp
  show "queries_executed (snd (query d (Some sql) args False one s)) = queries_executed s + 1"
    using q f k by simp
qed

theorem query_bookkeeping_witness:
  "connect driver0 session0 = (None, session0) \<and>
   run_fn driver0 (Callproc (Some ''sum_values'') [PInt 1, PInt 2]) (backend session0)
     = (Inr (1, PInt 7), 1) \<and>
   (case mogrify_fn driver0 of
      None \<Rightarrow> Inr (rewrite (placeholder session0) ''SELECT %d'')
    | Some m \<Rightarrow> m (Some (rewrite (placeholder session0) ''SELECT %d'')) [PInt 3])
     = Inr ''SELECT %s'' \<and>
   run_fn driver0 (Execute (Some (rewrite (placeholder session0) ''SELECT %d'')) [PInt 3])
       (backend session0) = (Inr (1, PInt 7), 1) \<and>
   affected_rows (snd (query driver0 (Some ''sum_values'') [PInt 1, PInt 2] True False session0)) = 1 \<and>
   last_insert_id (snd (query driver0 (Some ''sum_values'') [PInt 1, PInt 2] True False session0))
     = PInt 7 \<and>
   last_query (snd (query driver0 (Some ''sum_values'') [PInt 1, PInt 2] True False session0))
     = PStr ''sum_values1, 2'' \<and>
   queries_executed (snd (query driver0 (Some ''sum_values'') [PInt 1, PInt 2] True False session0))
     = 0 \<and>
   affected_rows (snd (query driver0 (Some ''SELECT %d'') [PInt 3] False False session0)) = 1 \<and>
   last_insert_id (snd (query driver0 (Some ''SELECT %d'') [PInt 3] False False session0)) = PInt 7 \<and>
   last_query (snd (query driver0 (Some ''SELECT %d'') [PInt 3] False False session0))
     = PStr ''SELECT %s'' \<and>
   queries_executed (snd (query driver0 (Some ''SELECT %d'') [PInt 3] False False session0)) = 1"
proof -
  have h1: "connect driver0 session0 = (None, session0)"
    by (simp add: connect_def session0_def)
  have h2: "run_fn driver0 (Callproc (Some ''sum_values'') [PInt 1, PInt 2]) (backend session0)
     = (Inr (1, PInt 7), 1)"
    by (simp add: driver0_def session0_def)
  have rw: "rewrite (placeholder session0) ''SELECT %d'' = ''SELECT %s''"
    by (simp add: rewrite_def session0_def sq_def dq_def)
  have h3: "(case mogrify_fn driver0 of
      None \<Rightarrow> Inr (rewrite (placeholder session0) ''SELECT %d'')
    | Some m \<Rightarrow> m (Some (rewrite (placeholder session0) ''SELECT %d'')) [PInt 3])
     = Inr ''SELECT %s''"
    by (simp add: rw driver0_def)
  have h4: "run_fn driver0 (Execute (Some (rewrite (placeholder session0) ''SELECT %d'')) [PInt 3])
       (backend session0) = (Inr (1, PInt 7), 1)"
    by (simp add: driver0_def session0_def)
  have q0: "queries_executed session0 = 0"
    by (simp add: session0_def)
  have str: "''sum_values'' @ join '', '' (map py_str [PInt 1, PInt 2]) = ''sum_values1, 2''"
    by (simp add: py_str_def digit_char_def)
  show ?thesis
    using query_bookkeeping [OF h1, where name = "''sum_values''" and args = "[PInt 1, PInt 2]"
        and rowcount = 1 and lastrowid = "PInt 7" and b = 1 and one = False
        and sql = "''SELECT %d''" and final = "''SELECT %s''"]
      query_bookkeeping [OF h1, where args = "[PInt 3]"
        and rowcount = 1 and lastrowid = "PInt 7" and b = 1 and one = False
        and sql = "''SELECT %d''" and final = "''SELECT %s''"]
      h1 h2 h3 h4 q0 str
    by simp
qed

text \<open>
  The claim as stated fails on the stored-procedure path: after a call with
  \<^verbatim>\<open>proc=True\<close> that succeeds, the counter of executed queries is still 0.
\<close>

theorem proc_counter_counterexample:
  "fst (query driver0 (Some ''sum_values'') [PInt 1, PInt 2] True False session0) = Inr (QRows []) \<and>
   queries_executed session0 = 0 \<and>
   queries_executed (snd (query driver0 (Some ''sum_values'') [PInt 1, PInt 2] True False session0)) = 0"
  by (simp add: query_def connect_def cursor_def query_execute_def query_fetch_def
      close_cursor_def driver0_def session0_def Let_def)

section \<open>The cursor of a statement\<close>

text \<open>
  When \<^verbatim>\<open>query\<close> returns, the cursor it opened is closed: the statement's cursor is
  the one created right after \<^verbatim>\<open>connect\<close>, cursors created later (by \<^verbatim>\<open>prepare\<close>)
  come after it, and the fetch that succeeds is followed by \<^verbatim>\<open>cursor.close()\<close>.
\<close>

lemma prepare_connection:
  assumes "connection s = Some c"
  shows "\<exists>ext. connection (snd (prepare d sql args s)) = Some (c @ ext)"
proof (cases sql)
  case None
  then show ?thesis using assms by (simp add: prepare_def)
next
  case (Some q)
  have "connection (snd (prepare d (Some q) args s)) = Some (c @ [True])"
    using assms
    by (simp add: prepare_def connect_def cursor_def Let_def split: option.splits sum.splits)
  then show ?thesis using Some by blast
qed

lemma query_execute_connection:
  assumes c: "connection s = Some c"
  shows "\<exists>ext. connection (snd (query_execute d sql args proc s)) = Some (c @ ext)"
proof (cases proc)
  case True
  have "connection (snd (query_execute d sql args True s)) = Some (c @ [])"
    using c by (simp add: query_execute_def split: prod.splits sum.splits option.splits)
  then show ?thesis using True by auto
next
  case False
  obtain r t where p: "prepare d sql [] s = (r, t)"
    by (cases "prepare d sql [] s")
  obtain ext where ext: "connection t = Some (c @ ext)"
    using prepare_connection [OF c, of d sql "[]"] p by auto
  have "connection (snd (query_execute d sql args False s)) = Some (c @ ext)"
    using p ext
    by (simp add: query_execute_def Let_def split: prod.splits sum.splits option.splits)
  then show ?thesis using False by auto
qed

lemma query_fetch_closes:
  assumes "query_fetch d cur c one s = (Inr r, s')"
  shows "connection s' = map_option (\<lambda>cs. cs[cur := False]) (connection s)"
  using assms
  by (auto simp: query_fetch_def close_cursor_def Let_def
      split: prod.splits sum.splits option.splits)

lemma query_closes_cursor:
  assumes conn: "connect d s = (None, s1)" and c: "connection s1 = Some c"
    and ok: "query d sql args proc one s = (Inr r, s')"
  shows "\<not> cursor_open (length c) s'"
proof -
  let ?s2 = "s1\<lparr>connection := Some (c @ [True])\<rparr>"
  obtain r3 s3 where ex: "query_execute d sql args proc ?s2 = (r3, s3)"
    by (cases "query_execute d sql args proc ?s2")
  obtain ext where ext: "connection s3 = Some ((c @ [True]) @ ext)"
    using query_execute_connection [of ?s2 "c @ [True]" d sql args proc] ex by auto
  from ok conn c ex obtain call rowcount lastrowid where
    r3: "r3 = Inr (call, rowcount, lastrowid)"
    and f: "query_fetch d (length c) call one
              (s3\<lparr>affected_rows := rowcount, last_insert_id := lastrowid\<rparr>) = (Inr r, s')"
    by (auto simp: query_def cursor_def split: sum.splits)
  have "connection s' = Some (((c @ [True]) @ ext)[length c := False])"
    using query_fetch_closes [OF f] ext by simp
  then show ?thesis
    by (simp add: cursor_open_def nth_append)
qed

text \<open>
  Claim C5. The claim includes the case where \<^verbatim>\<open>fetchall\<close> fails after a successful
  \<^verbatim>\<open>execute\<close>. There the handler \<^verbatim>\<open>except exception:\<close> raises \<^verbatim>\<open>NameError\<close>, the
  call ends with that error and the statement's cursor (number 0 of the connection) is
  still open.
\<close>

theorem fetch_failure_leaves_cursor_open:
  "fst (query failing_fetch (Some ''DELETE FROM t'') [] False False session0)
     = Inl (NameError ''exception'') \<and>
   cursor_open 0 (snd (query failing_fetch (Some ''DELETE FROM t'') [] False False session0))"
  by (simp add: query_def connect_def cursor_def query_execute_def prepare_def query_fetch_def
      close_cursor_def cursor_open_def failing_fetch_def driver0_def session0_def Let_def)

section \<open>The fallback for an unrecognized shape\<close>

text \<open>Without \<^verbatim>\<open>one=True\<close>, \<^verbatim>\<open>query\<close> never returns a single record.\<close>

lemma query_fetch_all_not_row: "fst (query_fetch d cur c False s) \<noteq> Inr (QRow r)"
  by (simp add: query_fetch_def Let_def split: prod.splits sum.splits option.splits)

lemma query_all_not_row: "fst (query d sql args proc False s) \<noteq> Inr (QRow r)"
  using query_fetch_all_not_row [of d _ _ _ r]
  by (auto simp: query_def split: prod.splits sum.splits option.splits)

lemma shape_rows_unrecognized:
  assumes "output_type \<noteq> ''record''" "output_type \<noteq> ''dict''"
    "output_type \<noteq> ''dataset''" "output_type \<noteq> ''object''"
  shows "shape_rows output_type rs output_rows = output_rows"
  using assms by (induction rs arbitrary: output_rows) (simp_all add: shape_row_def)

text \<open>
  Claim C10, as amended. For an output type other than \<^verbatim>\<open>record\<close>, \<^verbatim>\<open>dict\<close>,
  \<^verbatim>\<open>dataset\<close> and \<^verbatim>\<open>object\<close>, when the query returns a collection of rows:
  \<^verbatim>\<open>get_row\<close> returns \<^verbatim>\<open>None\<close> if the collection has a row at the offset and raises
  \<^verbatim>\<open>IndexError\<close> if it has none, and \<^verbatim>\<open>get_results\<close> returns the empty list.
\<close>

theorem unrecognized_shape_fallback:
  assumes shape: "output_type \<noteq> ''record''" "output_type \<noteq> ''dict''"
      "output_type \<noteq> ''dataset''" "output_type \<noteq> ''object''"
    and q: "query d (Some query_text) [] False False s = (Inr (QRows rs), s1)"
  shows "(row_offset < length rs \<longrightarrow>
            get_row d query_text output_type row_offset s = (Inr None, s1)) \<and>
         (\<not> row_offset < length rs \<longrightarrow>
            get_row d query_text output_type row_offset s = (Inl IndexError, s1)) \<and>
         get_results d query_text output_type s = (Inr [], s1)"
  using shape q
  by (simp add: get_row_def get_results_def index_rows_def shape_rows_unrecognized)

theorem unrecognized_shape_fallback_witness:
  "''tuple'' \<noteq> ''record'' \<and> ''tuple'' \<noteq> ''dict'' \<and> ''tuple'' \<noteq> ''dataset'' \<and>
   ''tuple'' \<noteq> ''object'' \<and>
   fst (query one_row_driver (Some ''SELECT 1'') [] False False session0)
     = Inr (QRows [Record [''id''] [PInt 1]]) \<and>
   (0::nat) < length [Record [''id''] [PInt 1]] \<and>
   fst (get_row one_row_driver ''SELECT 1'' ''tuple'' 0 session0) = Inr None \<and>
   fst (get_results one_row_driver ''SELECT 1'' ''tuple'' session0) = Inr []"
proof -
  have h1: "''tuple'' \<noteq> ''record''" "''tuple'' \<noteq> ''dict''" "''tuple'' \<noteq> ''dataset''"
    "''tuple'' \<noteq> ''object''"
    by simp_all
  have h2: "query one_row_driver (Some ''SELECT 1'') [] False False session0
     = (Inr (QRows [Record [''id''] [PInt 1]]),
        snd (query one_row_driver (Some ''SELECT 1'') [] False False session0))"
    by (simp add: query_def connect_def cursor_def query_execute_def prepare_def query_fetch_def
        close_cursor_def one_row_driver_def driver0_def session0_def Let_def)
  have h3: "fst (query one_row_driver (Some ''SELECT 1'') [] False False session0)
     = Inr (QRows [Record [''id''] [PInt 1]])"
    using h2 by (metis fst_conv)
  show ?thesis
    using unrecognized_shape_fallback [OF h1 h2, of 0] h1 h3
    by simp
qed

text \<open>
  The claim as stated fails for a query result without rows: \<^verbatim>\<open>get_row\<close> raises
  \<^verbatim>\<open>IndexError\<close> at line 373 and returns nothing.
\<close>

theorem get_row_empty_result_counterexample:
  "fst (query driver0 (Some ''SELECT 1'') [] False False session0) = Inr (QRows []) \<and>
   fst (get_row driver0 ''SELECT 1'' ''tuple'' 0 session0) = Inl IndexError \<and>
   fst (get_results driver0 ''SELECT 1'' ''tuple'' session0) = Inr []"
  by (simp add: get_row_def get_results_def index_rows_def query_def connect_def cursor_def
      query_execute_def prepare_def query_fetch_def close_cursor_def driver0_def session0_def
      Let_def)

end
